theory Spec2Isabelle
  imports Main "HOL-Library.Word"
begin

section \<open>Data model of server/main.go\<close>

text \<open>
  Go's \<open>int64\<close> is a 64-bit word read as a signed number. A \<open>time.Time\<close> is modelled by
  the number of nanoseconds since the Unix epoch, a \<open>time.Duration\<close> by a number of
  nanoseconds. A Go slice is modelled by the sequence of its elements (the nil slice
  and the empty slice are both \<open>[]\<close>), a Go map by a partial function. The mutex of
  \<open>MemoryStorage\<close> is not modelled: every handler runs alone, so each locked section is
  one step on the storage.
\<close>

type_synonym int64 = "64 word"
type_synonym time = int
type_synonym duration = int

record VehicleList =
  ListID :: int64
  DisplayName :: string
  Name :: string
  Color :: string
  Order :: int
  Status :: int

record Record =
  ID :: int64
  Plate :: string
  VehicleType :: string

record TokenData =
  Expiry :: time
  OwnerID :: int64

record MemoryStorage =
  Lists :: "int64 \<rightharpoonup> VehicleList"
  Records :: "int64 \<rightharpoonup> Record list"
  Tokens :: "string \<rightharpoonup> TokenData"

record Credentials =
  Username :: string
  Password :: string
  IsRememberMe :: bool

text \<open>
  A value stored in a request context is of any Go type; only \<open>int64\<close> values pass the
  type assertion of \<open>contextID\<close>.
\<close>

datatype ctx_value = Int64Value int64 | OtherValue string

record Request =
  Method :: string
  Query :: "(string \<times> string) list"
  Cookies :: "(string \<times> string) list"
  Header :: "string \<rightharpoonup> string"
  Context :: "string \<rightharpoonup> ctx_value"
  Body :: string

text \<open>
  What a handler writes to its \<open>http.ResponseWriter\<close>: the status code, the cookie set
  (name, value, expiry) and the body. A JSON body is kept as the value handed to the
  encoder.
\<close>

datatype body =
    NoBody
  | PlainText string
  | LoginJSON string bool
  | ListsJSON "VehicleList list" nat nat nat
  | RecordsJSON "Record list"

record Response =
  StatusCode :: nat
  SetCookie :: "(string \<times> string \<times> time) option"
  RespBody :: body

type_synonym Handler = "Request \<Rightarrow> MemoryStorage \<Rightarrow> Response \<times> MemoryStorage"

section \<open>Library functions the handlers call\<close>

definition httpError :: "string \<Rightarrow> nat \<Rightarrow> Response" where
  "httpError msg code = \<lparr>StatusCode = code, SetCookie = None, RespBody = PlainText msg\<rparr>"

definition writeHeader :: "nat \<Rightarrow> Response" where
  "writeHeader code = \<lparr>StatusCode = code, SetCookie = None, RespBody = NoBody\<rparr>"

definition encodeJSON :: "body \<Rightarrow> Response" where
  "encodeJSON b = \<lparr>StatusCode = 200, SetCookie = None, RespBody = b\<rparr>"

text \<open>\<open>url.Values.Get\<close>: the first value of the key, the empty string when there is none.\<close>

definition queryGet :: "(string \<times> string) list \<Rightarrow> string \<Rightarrow> string" where
  "queryGet q k = (case map_of q k of None \<Rightarrow> [] | Some v \<Rightarrow> v)"

text \<open>\<open>Request.Cookie\<close>: the first cookie of that name, an error when there is none.\<close>

definition requestCookie :: "Request \<Rightarrow> string \<Rightarrow> string option" where
  "requestCookie r name = map_of (Cookies r) name"

text \<open>
  \<open>strconv.ParseInt(s, 10, 64)\<close>: an optional sign, then one or more decimal digits,
  and a value that fits 64 signed bits; every error is \<open>None\<close>. \<open>ParseUint\<close> returns
  the value of the digits unbounded: a value beyond 64 bits, which Go reports as a range
  error with the largest \<open>uint64\<close>, fails the range check of \<open>ParseInt\<close> all the same.
\<close>

definition digits :: string where
  "digits = ''0123456789''"

fun digitValue :: "char list \<Rightarrow> char \<Rightarrow> nat option" where
  "digitValue [] c = None"
| "digitValue (d # ds) c = (if c = d then Some 0 else map_option Suc (digitValue ds c))"

fun parseDigits :: "nat \<Rightarrow> string \<Rightarrow> nat option" where
  "parseDigits n [] = Some n"
| "parseDigits n (c # cs) =
     (case digitValue digits c of
        None \<Rightarrow> None
      | Some d \<Rightarrow> parseDigits (n * 10 + d) cs)"

definition ParseUint :: "string \<Rightarrow> nat option" where
  "ParseUint s = (if s = [] then None else parseDigits 0 s)"

definition ParseInt :: "string \<Rightarrow> int64 option" where
  "ParseInt s =
     (if s = [] then None
      else
        let neg = (hd s = CHR ''-'');
            s1 = (if hd s = CHR ''+'' \<or> hd s = CHR ''-'' then tl s else s)
        in case ParseUint s1 of
             None \<Rightarrow> None
           | Some un \<Rightarrow>
               if \<not> neg \<and> un \<ge> 2 ^ 63 then None
               else if neg \<and> un > 2 ^ 63 then None
               else Some (if neg then - word_of_nat un else word_of_nat un))"

text \<open>The verb \<open>%d\<close> of \<open>fmt.Sprintf\<close> and \<open>strconv.FormatInt(i, 10)\<close>.\<close>

fun showNat :: "nat \<Rightarrow> string" where
  "showNat n =
     (if n < 10 then [digits ! n] else showNat (n div 10) @ [digits ! (n mod 10)])"

declare showNat.simps [simp del]

definition showInt :: "int \<Rightarrow> string" where
  "showInt i = (if i < 0 then CHR ''-'' # showNat (nat (- i)) else showNat (nat i))"

definition FormatInt :: "int64 \<Rightarrow> string" where
  "FormatInt i = showInt (sint i)"

text \<open>\<open>Time.UnixNano\<close>, \<open>Time.Add\<close> and \<open>Time.After\<close>.\<close>

definition UnixNano :: "time \<Rightarrow> int64" where
  "UnixNano t = word_of_int t"

definition timeAdd :: "time \<Rightarrow> duration \<Rightarrow> time" where
  "timeAdd t d = t + d"

definition After :: "time \<Rightarrow> time \<Rightarrow> bool" where
  "After t u = (t > u)"

section \<open>The handlers\<close>

text \<open>
  \<open>time.Now()\<close> is read by the caller and passed in: \<open>loginHandler\<close> reads the clock
  three times (owner id, token, expiry), \<open>tokenMiddleware\<close> once. The JSON decoders of
  the request bodies are parameters; they return \<open>None\<close> where \<open>Decode\<close> returns an
  error.
\<close>

definition generateToken :: "int64 \<Rightarrow> time \<Rightarrow> string" where
  "generateToken ident now = FormatInt ident @ ''-'' @ FormatInt (UnixNano now)"

definition loginHandler ::
  "(string \<Rightarrow> Credentials option) \<Rightarrow> duration \<Rightarrow> time \<Rightarrow> time \<Rightarrow> time \<Rightarrow> Handler" where
  "loginHandler decodeCreds tokenExpiry now1 now2 now3 r st =
     (if Method r \<noteq> ''POST'' then (httpError ''Method not allowed'' 405, st)
      else case decodeCreds (Body r) of
        None \<Rightarrow> (httpError ''Bad request'' 400, st)
      | Some creds \<Rightarrow>
          let ident = UnixNano now1;
              token = generateToken ident now2;
              expiry = timeAdd now3 tokenExpiry
          in (\<lparr>StatusCode = 200, SetCookie = Some (''s'', token, expiry),
               RespBody = LoginJSON ''/'' True\<rparr>,
              st\<lparr>Tokens := (Tokens st)(token \<mapsto> \<lparr>Expiry = expiry, OwnerID = ident\<rparr>)\<rparr>))"

text \<open>
  Go visits the keys of a map in an order of its own choosing; the order \<open>ks\<close> of one
  \<open>range\<close> over \<open>storage.Lists\<close> is a parameter, and \<open>rangeOrder\<close> says that it visits
  every key once.
\<close>

definition rangeOrder :: "('k \<rightharpoonup> 'v) \<Rightarrow> 'k list \<Rightarrow> bool" where
  "rangeOrder m ks = (distinct ks \<and> set ks = dom m)"

fun rangeLists :: "(int64 \<rightharpoonup> VehicleList) \<Rightarrow> int64 list \<Rightarrow> VehicleList list \<Rightarrow> VehicleList list" where
  "rangeLists m [] vlists = vlists"
| "rangeLists m (k # ks) vlists =
     (case m k of
        None \<Rightarrow> rangeLists m ks vlists
      | Some list \<Rightarrow> rangeLists m ks (vlists @ [list]))"

definition vehicleListsHandler :: "int64 list \<Rightarrow> Handler" where
  "vehicleListsHandler ks r st =
     (if Method r = ''GET'' then
        let offset = 0; count = 20;
            vlists = rangeLists (Lists st) ks []
        in (encodeJSON (ListsJSON vlists offset count (length vlists)), st)
      else (httpError ''Method not allowed'' 405, st))"

definition contextWithID :: "(string \<rightharpoonup> ctx_value) \<Rightarrow> int64 \<Rightarrow> (string \<rightharpoonup> ctx_value)" where
  "contextWithID ctx ident = ctx(''id'' \<mapsto> Int64Value ident)"

definition contextID :: "(string \<rightharpoonup> ctx_value) \<Rightarrow> int64" where
  "contextID ctx = (case ctx ''id'' of Some (Int64Value ident) \<Rightarrow> ident | _ \<Rightarrow> 0)"

definition recordMiddleware :: "Handler \<Rightarrow> Handler" where
  "recordMiddleware next r st =
     (let idStr = queryGet (Query r) ''id'' in
      if idStr = [] then (httpError ''Missing id parameter'' 400, st)
      else case ParseInt idStr of
        None \<Rightarrow> (httpError ''Invalid id parameter'' 400, st)
      | Some ident \<Rightarrow> next (r\<lparr>Context := contextWithID (Context r) ident\<rparr>) st)"

definition handleGetRecord :: Handler where
  "handleGetRecord r st =
     (let ident = contextID (Context r) in
      case Records st ident of
        None \<Rightarrow> (httpError ''List not found'' 404, st)
      | Some records \<Rightarrow> (encodeJSON (RecordsJSON records), st))"

text \<open>Indexing a map at a missing key gives the nil slice, and \<open>append\<close> starts from it.\<close>

definition recordsAt :: "MemoryStorage \<Rightarrow> int64 \<Rightarrow> Record list" where
  "recordsAt st ident = (case Records st ident of None \<Rightarrow> [] | Some records \<Rightarrow> records)"

definition handlePostRecord :: "(string \<Rightarrow> Record option) \<Rightarrow> Handler" where
  "handlePostRecord decodeRecord r st =
     (let ident = contextID (Context r) in
      case decodeRecord (Body r) of
        None \<Rightarrow> (httpError ''Bad request'' 400, st)
      | Some record \<Rightarrow>
          (writeHeader 201,
           st\<lparr>Records := (Records st)(ident \<mapsto> recordsAt st ident @ [record])\<rparr>))"

text \<open>
  The loop of \<open>handleDeleteRecord\<close>: the index \<open>i\<close> of the first record whose id is
  \<open>recordID\<close>, counted from the index of the head of the slice still to visit.
\<close>

fun findRecord :: "int64 \<Rightarrow> nat \<Rightarrow> Record list \<Rightarrow> nat option" where
  "findRecord recordID i [] = None"
| "findRecord recordID i (rec # rest) =
     (if ID rec = recordID then Some i else findRecord recordID (Suc i) rest)"

definition handleDeleteRecord :: Handler where
  "handleDeleteRecord r st =
     (let ident = contextID (Context r);
          recordIDStr = queryGet (Query r) ''recordId''
      in
      if recordIDStr = [] then (httpError ''Missing recordId parameter'' 400, st)
      else case ParseInt recordIDStr of
        None \<Rightarrow> (httpError ''Invalid recordId parameter'' 400, st)
      | Some recordID \<Rightarrow>
          (case Records st ident of
             None \<Rightarrow> (httpError ''List not found'' 404, st)
           | Some records \<Rightarrow>
               (case findRecord recordID 0 records of
                  Some i \<Rightarrow>
                    (writeHeader 200,
                     st\<lparr>Records := (Records st)(ident \<mapsto> take i records @ drop (Suc i) records)\<rparr>)
                | None \<Rightarrow> (httpError ''Record not found'' 404, st))))"

definition recordHandler :: "(string \<Rightarrow> Record option) \<Rightarrow> Handler" where
  "recordHandler decodeRecord r st =
     (if Method r = ''GET'' then handleGetRecord r st
      else if Method r = ''POST'' then handlePostRecord decodeRecord r st
      else if Method r = ''DELETE'' then handleDeleteRecord r st
      else (httpError ''Method not allowed'' 405, st))"

definition tokenMiddleware :: "Handler \<Rightarrow> time \<Rightarrow> Handler" where
  "tokenMiddleware next now r st =
     (case requestCookie r ''s'' of
        None \<Rightarrow> (httpError ''Unauthorized'' 401, st)
      | Some cookieValue \<Rightarrow>
          (case Tokens st cookieValue of
             None \<Rightarrow> (httpError ''Unauthorized'' 401, st)
           | Some data \<Rightarrow>
               if After now (Expiry data) then (httpError ''Unauthorized'' 401, st)
               else next (r\<lparr>Header := (Header r)(''User-ID'' \<mapsto> FormatInt (OwnerID data))\<rparr>) st))"

section \<open>Example stores and requests\<close>

text \<open>
  The storage as \<open>main\<close> initialises it, a request as \<open>httptest.NewRequest\<close> builds it,
  and the records, stores and requests of the handler tests (list id 1, records 100 and
  101).
\<close>

definition newStorage :: MemoryStorage where
  "newStorage = \<lparr>Lists = Map.empty, Records = Map.empty, Tokens = Map.empty\<rparr>"

definition newRequest :: "string \<Rightarrow> (string \<times> string) list \<Rightarrow> string \<Rightarrow> Request" where
  "newRequest method query content =
     \<lparr>Method = method, Query = query, Cookies = [], Header = Map.empty,
      Context = Map.empty, Body = content\<rparr>"

definition carRecord :: Record where
  "carRecord = \<lparr>ID = 100, Plate = ''ABC123'', VehicleType = ''Car''\<rparr>"

definition truckRecord :: Record where
  "truckRecord = \<lparr>ID = 101, Plate = ''XYZ789'', VehicleType = ''Truck''\<rparr>"

definition storageWith :: "Record list \<Rightarrow> MemoryStorage" where
  "storageWith records = newStorage\<lparr>Records := [1 \<mapsto> records]\<rparr>"

definition scopedRequest :: "string \<Rightarrow> (string \<times> string) list \<Rightarrow> string \<Rightarrow> Request" where
  "scopedRequest method query content =
     (newRequest method query content)\<lparr>Context := contextWithID Map.empty 1\<rparr>"

text \<open>A decoder for the one request body the examples post.\<close>

definition decodeRecordText :: "string \<Rightarrow> Record option" where
  "decodeRecordText content =
     (if content = ''{id:101,plate:XYZ789,vehicleType:Truck}'' then Some truckRecord else None)"

text \<open>
  \<open>Request.AddCookie\<close>, a token store with one session that expires at time 5000, and
  two vehicle lists.
\<close>

definition addCookie :: "Request \<Rightarrow> string \<Rightarrow> string \<Rightarrow> Request" where
  "addCookie r name v = r\<lparr>Cookies := Cookies r @ [(name, v)]\<rparr>"

definition tokenStorage :: MemoryStorage where
  "tokenStorage = newStorage\<lparr>Tokens := [''1000-1001'' \<mapsto> \<lparr>Expiry = 5000, OwnerID = 1000\<rparr>]\<rparr>"

definition testList :: VehicleList where
  "testList = \<lparr>ListID = 1, DisplayName = ''Test List'', Name = ''testList'', Color = [],
                Order = 0, Status = 0\<rparr>"

definition otherList :: VehicleList where
  "otherList = \<lparr>ListID = 2, DisplayName = ''Other List'', Name = ''otherList'', Color = [],
                 Order = 1, Status = 0\<rparr>"

text \<open>
  A decoder for the login body of the tests, the login request, and three logins on a
  clock whose readings are given: the second reads the same value for its owner id as
  the first, the later one a different value. \<open>userIDHandler\<close> is a terminal handler
  that answers with the \<open>User-ID\<close> header it receives.
\<close>

definition decodeCredsText :: "string \<Rightarrow> Credentials option" where
  "decodeCredsText content =
     (if content = ''{username:test,password:password,isRememberMe:false}''
      then Some \<lparr>Username = ''test'', Password = ''password'', IsRememberMe = False\<rparr>
      else None)"

definition loginRequest :: Request where
  "loginRequest = newRequest ''POST'' [] ''{username:test,password:password,isRememberMe:false}''"

definition firstLogin :: "Response \<times> MemoryStorage" where
  "firstLogin = loginHandler decodeCredsText 300000000000 1000 1000 1000 loginRequest newStorage"

definition secondLogin :: "Response \<times> MemoryStorage" where
  "secondLogin =
     loginHandler decodeCredsText 300000000000 1000 1001 1001 loginRequest (snd firstLogin)"

definition laterLogin :: "Response \<times> MemoryStorage" where
  "laterLogin =
     loginHandler decodeCredsText 300000000000 2000 2000 2000 loginRequest (snd firstLogin)"

definition userIDHandler :: Handler where
  "userIDHandler r st =
     (case Header r ''User-ID'' of
        None \<Rightarrow> (httpError ''Forbidden'' 403, st)
      | Some userID \<Rightarrow> (\<lparr>StatusCode = 200, SetCookie = None, RespBody = PlainText userID\<rparr>, st))"

section \<open>Reading records\<close>

lemma contextID_scoped: "contextID (Context (scopedRequest m q b)) = 1"
  by (simp add: scopedRequest_def contextID_def contextWithID_def)

text \<open>
  Claim C3. \<open>handleGetRecord\<close> answers 404 exactly when the list id of the request
  context has no entry in \<open>Records\<close>; when the entry is the empty sequence it answers
  200 with the empty sequence as its entries, the storage unchanged.
\<close>

theorem handleGetRecord_not_found_iff:
  "(StatusCode (fst (handleGetRecord r st)) = 404) = (Records st (contextID (Context r)) = None)
   \<and> (Records st (contextID (Context r)) = None \<longrightarrow>
        handleGetRecord r st = (httpError ''List not found'' 404, st))
   \<and> (Records st (contextID (Context r)) = Some [] \<longrightarrow>
        handleGetRecord r st = (encodeJSON (RecordsJSON []), st)
        \<and> StatusCode (fst (handleGetRecord r st)) = 200)"
  by (simp add: handleGetRecord_def httpError_def encodeJSON_def split: option.splits)

theorem handleGetRecord_not_found_iff_witness:
  "handleGetRecord (scopedRequest ''GET'' [(''id'', ''1'')] []) newStorage
     = (httpError ''List not found'' 404, newStorage)
   \<and> handleGetRecord (scopedRequest ''GET'' [(''id'', ''1'')] []) (storageWith [])
     = (encodeJSON (RecordsJSON []), storageWith [])"
proof -
  have a: "Records newStorage (contextID (Context (scopedRequest ''GET'' [(''id'', ''1'')] []))) = None"
    by (simp add: newStorage_def)
  have b: "Records (storageWith []) (contextID (Context (scopedRequest ''GET'' [(''id'', ''1'')] []))) = Some []"
    by (simp add: storageWith_def contextID_scoped)
  from a b handleGetRecord_not_found_iff [of "scopedRequest ''GET'' [(''id'', ''1'')] []" newStorage]
    handleGetRecord_not_found_iff [of "scopedRequest ''GET'' [(''id'', ''1'')] []" "storageWith []"]
  show ?thesis by blast
qed

section \<open>Deleting records\<close>

lemma ParseInt_Nil: "ParseInt [] = None" by (simp add: ParseInt_def)

lemma ParseInt_100: "ParseInt ''100'' = Some 100"
  by (simp add: ParseInt_def ParseUint_def digits_def)

lemma ParseInt_abc: "ParseInt ''abc'' = None"
  by (simp add: ParseInt_def ParseUint_def digits_def)

lemma findRecord_Some:
  "findRecord recordID i records = Some j \<Longrightarrow>
   \<exists>pre rec post. records = pre @ rec # post \<and> ID rec = recordID \<and>
     (\<forall>x \<in> set pre. ID x \<noteq> recordID) \<and> j = i + length pre"
proof (induction records arbitrary: i)
  case Nil
  then show ?case by simp
next
  case (Cons a records)
  show ?case
  proof (cases "ID a = recordID")
    case True
    with Cons.prems have "j = i" by simp
    with True have "a # records = [] @ a # records \<and> ID a = recordID \<and>
      (\<forall>x \<in> set []. ID x \<noteq> recordID) \<and> j = i + length ([]::Record list)" by simp
    then show ?thesis by blast
  next
    case False
    with Cons.prems have "findRecord recordID (Suc i) records = Some j" by simp
    from Cons.IH[OF this] obtain pre rec post where
      h: "records = pre @ rec # post" "ID rec = recordID"
         "\<forall>x \<in> set pre. ID x \<noteq> recordID" "j = Suc i + length pre" by blast
    with False have "a # records = (a # pre) @ rec # post \<and> ID rec = recordID \<and>
      (\<forall>x \<in> set (a # pre). ID x \<noteq> recordID) \<and> j = i + length (a # pre)" by simp
    then show ?thesis by blast
  qed
qed

lemma findRecord_None:
  "(findRecord recordID i records = None) = (\<forall>x \<in> set records. ID x \<noteq> recordID)"
  by (induction records arbitrary: i) auto

lemma handleDeleteRecord_parsed:
  "ParseInt (queryGet (Query r) ''recordId'') = Some recordID \<Longrightarrow>
   handleDeleteRecord r st =
     (case Records st (contextID (Context r)) of
        None \<Rightarrow> (httpError ''List not found'' 404, st)
      | Some records \<Rightarrow>
          (case findRecord recordID 0 records of
             Some i \<Rightarrow>
               (writeHeader 200,
                st\<lparr>Records := (Records st)(contextID (Context r) \<mapsto> take i records @ drop (Suc i) records)\<rparr>)
           | None \<Rightarrow> (httpError ''Record not found'' 404, st)))"
  by (cases "queryGet (Query r) ''recordId'' = []")
     (simp_all add: handleDeleteRecord_def ParseInt_Nil Let_def)

text \<open>
  Claim C2. When the sequence of the scoped list holds a record with the requested id,
  \<open>handleDeleteRecord\<close> removes the first such record and no other: the sequence splits
  as \<open>pre @ rec # post\<close> with no match in \<open>pre\<close>, and the stored sequence becomes
  \<open>pre @ post\<close>, the records that remain in their order. The answer is 200 with no body.
\<close>

theorem handleDeleteRecord_removes_first:
  assumes parsed: "ParseInt (queryGet (Query r) ''recordId'') = Some recordID"
    and found: "Records st (contextID (Context r)) = Some records"
    and member: "\<exists>rec \<in> set records. ID rec = recordID"
  shows "\<exists>pre rec post.
           records = pre @ rec # post \<and> ID rec = recordID \<and>
           (\<forall>x \<in> set pre. ID x \<noteq> recordID) \<and>
           handleDeleteRecord r st =
             (writeHeader 200,
              st\<lparr>Records := (Records st)(contextID (Context r) \<mapsto> pre @ post)\<rparr>) \<and>
           StatusCode (writeHeader 200) = 200 \<and> RespBody (writeHeader 200) = NoBody"
proof -
  from member have "findRecord recordID 0 records \<noteq> None"
    by (simp add: findRecord_None)
  then obtain i where i: "findRecord recordID 0 records = Some i" by blast
  from findRecord_Some [OF i] obtain pre rec post where
    h: "records = pre @ rec # post" "ID rec = recordID"
       "\<forall>x \<in> set pre. ID x \<noteq> recordID" "i = length pre" by auto
  from h have "take i records @ drop (Suc i) records = pre @ post" by simp
  with parsed found i have
    "handleDeleteRecord r st =
       (writeHeader 200, st\<lparr>Records := (Records st)(contextID (Context r) \<mapsto> pre @ post)\<rparr>)"
    by (simp add: handleDeleteRecord_parsed)
  with h show ?thesis by (auto simp: writeHeader_def)
qed

lemma query_recordId_100:
  "queryGet (Query (scopedRequest m [(''id'', ''1''), (''recordId'', ''100'')] b)) ''recordId'' = ''100''"
  by (simp add: scopedRequest_def newRequest_def queryGet_def)

theorem handleDeleteRecord_removes_first_witness:
  "handleDeleteRecord (scopedRequest ''DELETE'' [(''id'', ''1''), (''recordId'', ''100'')] [])
     (storageWith [truckRecord, carRecord, truckRecord, carRecord])
   = (writeHeader 200, storageWith [truckRecord, truckRecord, carRecord])"
proof -
  let ?r = "scopedRequest ''DELETE'' [(''id'', ''1''), (''recordId'', ''100'')] []"
  let ?recs = "[truckRecord, carRecord, truckRecord, carRecord]"
  let ?st = "storageWith ?recs"
  have p: "ParseInt (queryGet (Query ?r) ''recordId'') = Some 100"
    by (simp only: query_recordId_100 ParseInt_100)
  have f: "Records ?st (contextID (Context ?r)) = Some ?recs"
    by (simp add: storageWith_def contextID_scoped)
  have m: "\<exists>rec \<in> set ?recs. ID rec = 100"
    by (simp add: carRecord_def)
  from handleDeleteRecord_removes_first [OF p f m] obtain pre rec post where
    h: "?recs = pre @ rec # post" "ID rec = 100" "\<forall>x \<in> set pre. ID x \<noteq> 100"
       "handleDeleteRecord ?r ?st =
          (writeHeader 200, ?st\<lparr>Records := (Records ?st)(contextID (Context ?r) \<mapsto> pre @ post)\<rparr>)"
    by blast
  have t: "ID truckRecord \<noteq> 100" by (simp add: truckRecord_def)
  have c: "ID carRecord = 100" by (simp add: carRecord_def)
  from h(1,2,3) t c have "pre = [truckRecord] \<and> post = [truckRecord, carRecord]"
    by (cases pre; cases "tl pre") auto
  with h(4) show ?thesis
    by (simp add: storageWith_def contextID_scoped)
qed

lemma query_recordId_other:
  "queryGet (Query (scopedRequest m [(''id'', ''1''), (''recordId'', v)] b)) ''recordId'' = v"
  by (simp add: scopedRequest_def newRequest_def queryGet_def)

lemma query_recordId_absent:
  "queryGet (Query (scopedRequest m [(''id'', ''1'')] b)) ''recordId'' = []"
  by (simp add: scopedRequest_def newRequest_def queryGet_def)

text \<open>
  Claim C6. The failures of \<open>handleDeleteRecord\<close>, in the order the handler checks
  them, each with the storage left as it was: a \<open>recordId\<close> parameter that is missing
  or does not parse gives 400; with a \<open>recordId\<close> that parses, a list id with no entry
  in \<open>Records\<close> gives 404, and a list whose sequence holds no record of that id gives
  404.
\<close>

theorem handleDeleteRecord_errors:
  "(\<forall>recordID records.
      ParseInt (queryGet (Query r) ''recordId'') = Some recordID \<and>
      Records st (contextID (Context r)) = Some records \<and>
      (\<forall>x \<in> set records. ID x \<noteq> recordID)
      \<longrightarrow> handleDeleteRecord r st = (httpError ''Record not found'' 404, st))
   \<and> (queryGet (Query r) ''recordId'' = []
      \<longrightarrow> handleDeleteRecord r st = (httpError ''Missing recordId parameter'' 400, st))
   \<and> (queryGet (Query r) ''recordId'' \<noteq> [] \<and> ParseInt (queryGet (Query r) ''recordId'') = None
      \<longrightarrow> handleDeleteRecord r st = (httpError ''Invalid recordId parameter'' 400, st))
   \<and> (\<forall>recordID.
      ParseInt (queryGet (Query r) ''recordId'') = Some recordID \<and>
      Records st (contextID (Context r)) = None
      \<longrightarrow> handleDeleteRecord r st = (httpError ''List not found'' 404, st))"
proof (intro conjI allI impI)
  fix recordID records
  assume "ParseInt (queryGet (Query r) ''recordId'') = Some recordID \<and>
      Records st (contextID (Context r)) = Some records \<and>
      (\<forall>x \<in> set records. ID x \<noteq> recordID)"
  then have "ParseInt (queryGet (Query r) ''recordId'') = Some recordID"
    and "Records st (contextID (Context r)) = Some records"
    and "findRecord recordID 0 records = None"
    by (simp_all add: findRecord_None)
  then show "handleDeleteRecord r st = (httpError ''Record not found'' 404, st)"
    by (simp add: handleDeleteRecord_parsed)
next
  assume "queryGet (Query r) ''recordId'' = []"
  then show "handleDeleteRecord r st = (httpError ''Missing recordId parameter'' 400, st)"
    by (simp add: handleDeleteRecord_def)
next
  assume "queryGet (Query r) ''recordId'' \<noteq> [] \<and> ParseInt (queryGet (Query r) ''recordId'') = None"
  then show "handleDeleteRecord r st = (httpError ''Invalid recordId parameter'' 400, st)"
    by (simp add: handleDeleteRecord_def)
next
  fix recordID
  assume "ParseInt (queryGet (Query r) ''recordId'') = Some recordID \<and>
      Records st (contextID (Context r)) = None"
  then show "handleDeleteRecord r st = (httpError ''List not found'' 404, st)"
    by (simp add: handleDeleteRecord_parsed)
qed

theorem handleDeleteRecord_errors_witness:
  "handleDeleteRecord (scopedRequest ''DELETE'' [(''id'', ''1''), (''recordId'', ''100'')] [])
     (storageWith [truckRecord]) = (httpError ''Record not found'' 404, storageWith [truckRecord])
   \<and> handleDeleteRecord (scopedRequest ''DELETE'' [(''id'', ''1'')] [])
     (storageWith [truckRecord]) = (httpError ''Missing recordId parameter'' 400, storageWith [truckRecord])
   \<and> handleDeleteRecord (scopedRequest ''DELETE'' [(''id'', ''1''), (''recordId'', ''abc'')] [])
     (storageWith [truckRecord]) = (httpError ''Invalid recordId parameter'' 400, storageWith [truckRecord])
   \<and> handleDeleteRecord (scopedRequest ''DELETE'' [(''id'', ''1''), (''recordId'', ''100'')] [])
     newStorage = (httpError ''List not found'' 404, newStorage)"
proof -
  let ?r = "scopedRequest ''DELETE'' [(''id'', ''1''), (''recordId'', ''100'')] []"
  let ?ra = "scopedRequest ''DELETE'' [(''id'', ''1'')] []"
  let ?rb = "scopedRequest ''DELETE'' [(''id'', ''1''), (''recordId'', ''abc'')] []"
  let ?st = "storageWith [truckRecord]"
  have p: "ParseInt (queryGet (Query ?r) ''recordId'') = Some 100"
    by (simp only: query_recordId_other ParseInt_100)
  have f: "Records ?st (contextID (Context ?r)) = Some [truckRecord]"
    by (simp add: storageWith_def contextID_scoped)
  have n: "\<forall>x \<in> set [truckRecord]. ID x \<noteq> 100"
    by (simp add: truckRecord_def)
  have q0: "queryGet (Query ?ra) ''recordId'' = []"
    by (rule query_recordId_absent)
  have qx: "queryGet (Query ?rb) ''recordId'' \<noteq> [] \<and> ParseInt (queryGet (Query ?rb) ''recordId'') = None"
    by (simp add: query_recordId_other ParseInt_abc)
  have e: "Records newStorage (contextID (Context ?r)) = None"
    by (simp add: newStorage_def)
  from p f n handleDeleteRecord_errors [of ?r ?st]
  have 1: "handleDeleteRecord ?r ?st = (httpError ''Record not found'' 404, ?st)" by blast
  from q0 handleDeleteRecord_errors [of ?ra ?st]
  have 2: "handleDeleteRecord ?ra ?st = (httpError ''Missing recordId parameter'' 400, ?st)" by blast
  from qx handleDeleteRecord_errors [of ?rb ?st]
  have 3: "handleDeleteRecord ?rb ?st = (httpError ''Invalid recordId parameter'' 400, ?st)" by blast
  from p e handleDeleteRecord_errors [of ?r newStorage]
  have 4: "handleDeleteRecord ?r newStorage = (httpError ''List not found'' 404, newStorage)" by blast
  from 1 2 3 4 show ?thesis by blast
qed

text \<open>
  Claim C9. Deleting the only record of a list leaves the list id in \<open>Records\<close>, mapped
  to the empty sequence, so that \<open>handleGetRecord\<close> for the same list id then answers
  200 with empty entries and not 404.
\<close>

theorem delete_last_record_keeps_list:
  assumes parsed: "ParseInt (queryGet (Query r) ''recordId'') = Some recordID"
    and single: "Records st (contextID (Context r)) = Some [rec]"
    and match: "ID rec = recordID"
    and same: "contextID (Context r') = contextID (Context r)"
  shows "\<exists>st'. handleDeleteRecord r st = (writeHeader 200, st') \<and>
           Records st' (contextID (Context r)) = Some [] \<and>
           handleGetRecord r' st' = (encodeJSON (RecordsJSON []), st') \<and>
           StatusCode (fst (handleGetRecord r' st')) = 200"
proof -
  let ?st' = "st\<lparr>Records := (Records st)(contextID (Context r) \<mapsto> [])\<rparr>"
  from parsed single match have "handleDeleteRecord r st = (writeHeader 200, ?st')"
    by (simp add: handleDeleteRecord_parsed)
  moreover have "Records ?st' (contextID (Context r)) = Some []" by simp
  moreover from same have "handleGetRecord r' ?st' = (encodeJSON (RecordsJSON []), ?st')"
    by (simp add: handleGetRecord_def)
  moreover have "StatusCode (encodeJSON (RecordsJSON [])) = 200"
    by (simp add: encodeJSON_def)
  ultimately show ?thesis by (intro exI [of _ ?st']) simp
qed

theorem delete_last_record_keeps_list_witness:
  "handleDeleteRecord (scopedRequest ''DELETE'' [(''id'', ''1''), (''recordId'', ''100'')] [])
     (storageWith [carRecord]) = (writeHeader 200, storageWith [])
   \<and> handleGetRecord (scopedRequest ''GET'' [(''id'', ''1'')] []) (storageWith [])
     = (encodeJSON (RecordsJSON []), storageWith [])"
proof -
  let ?r = "scopedRequest ''DELETE'' [(''id'', ''1''), (''recordId'', ''100'')] []"
  let ?g = "scopedRequest ''GET'' [(''id'', ''1'')] []"
  let ?st = "storageWith [carRecord]"
  have p: "ParseInt (queryGet (Query ?r) ''recordId'') = Some 100"
    by (simp only: query_recordId_other ParseInt_100)
  have f: "Records ?st (contextID (Context ?r)) = Some [carRecord]"
    by (simp add: storageWith_def contextID_scoped)
  have c: "ID carRecord = 100" by (simp add: carRecord_def)
  have s: "contextID (Context ?g) = contextID (Context ?r)"
    by (simp add: contextID_scoped)
  from delete_last_record_keeps_list [OF p f c s] obtain st' where
    h: "handleDeleteRecord ?r ?st = (writeHeader 200, st')"
       "handleGetRecord ?g st' = (encodeJSON (RecordsJSON []), st')" by blast
  have "handleDeleteRecord ?r ?st = (writeHeader 200, storageWith [])"
    using p f c by (simp add: handleDeleteRecord_parsed storageWith_def contextID_scoped)
  with h show ?thesis by simp
qed

section \<open>Creating records\<close>

text \<open>
  Claim C5. When the body decodes to a record, \<open>handlePostRecord\<close> answers 201 and
  stores the sequence of the scoped list with the record appended (the sequence
  \<open>[record]\<close> when the list had no entry); \<open>handleGetRecord\<close> for the same list id, run
  on the resulting storage, answers with that sequence, whose last element is the
  record, equal in id, plate and vehicle type.
\<close>

theorem post_then_get_returns_record:
  assumes decoded: "decodeRecord (Body r) = Some record"
    and same: "contextID (Context r') = contextID (Context r)"
  shows "\<exists>st' entries.
           handlePostRecord decodeRecord r st = (writeHeader 201, st') \<and>
           StatusCode (writeHeader 201) = 201 \<and>
           Records st' (contextID (Context r)) = Some entries \<and>
           handleGetRecord r' st' = (encodeJSON (RecordsJSON entries), st') \<and>
           entries = recordsAt st (contextID (Context r)) @ [record] \<and>
           (Records st (contextID (Context r)) = None \<longrightarrow> entries = [record]) \<and>
           last entries = record \<and>
           ID (last entries) = ID record \<and> Plate (last entries) = Plate record \<and>
           VehicleType (last entries) = VehicleType record"
proof -
  let ?L = "contextID (Context r)"
  let ?entries = "recordsAt st ?L @ [record]"
  let ?st' = "st\<lparr>Records := (Records st)(?L \<mapsto> ?entries)\<rparr>"
  from decoded have post: "handlePostRecord decodeRecord r st = (writeHeader 201, ?st')"
    by (simp add: handlePostRecord_def Let_def)
  have stored: "Records ?st' ?L = Some ?entries" by simp
  with same have get: "handleGetRecord r' ?st' = (encodeJSON (RecordsJSON ?entries), ?st')"
    by (simp add: handleGetRecord_def Let_def)
  have absent: "Records st ?L = None \<longrightarrow> ?entries = [record]"
    by (simp add: recordsAt_def)
  have code: "StatusCode (writeHeader 201) = 201" by (simp add: writeHeader_def)
  have final: "last ?entries = record" by simp
  from post stored get absent code final show ?thesis
    by (intro exI [of _ ?st'] exI [of _ ?entries]) simp
qed

theorem post_then_get_returns_record_witness:
  "handlePostRecord decodeRecordText
     (scopedRequest ''POST'' [(''id'', ''1'')] ''{id:101,plate:XYZ789,vehicleType:Truck}'')
     (storageWith [carRecord])
     = (writeHeader 201, storageWith [carRecord, truckRecord])
   \<and> handleGetRecord (scopedRequest ''GET'' [(''id'', ''1'')] []) (storageWith [carRecord, truckRecord])
     = (encodeJSON (RecordsJSON [carRecord, truckRecord]), storageWith [carRecord, truckRecord])"
proof -
  let ?p = "scopedRequest ''POST'' [(''id'', ''1'')] ''{id:101,plate:XYZ789,vehicleType:Truck}''"
  let ?g = "scopedRequest ''GET'' [(''id'', ''1'')] []"
  let ?st = "storageWith [carRecord]"
  have d: "decodeRecordText (Body ?p) = Some truckRecord"
    by (simp add: decodeRecordText_def scopedRequest_def newRequest_def)
  have s: "contextID (Context ?g) = contextID (Context ?p)"
    by (simp add: contextID_scoped)
  from post_then_get_returns_record [of decodeRecordText "?p" truckRecord "?g" "?st", OF d s] obtain st' entries where
    h: "handlePostRecord decodeRecordText ?p ?st = (writeHeader 201, st')"
       "handleGetRecord ?g st' = (encodeJSON (RecordsJSON entries), st')"
       "entries = recordsAt ?st (contextID (Context ?p)) @ [truckRecord]" by blast
  have "handlePostRecord decodeRecordText ?p ?st = (writeHeader 201, storageWith [carRecord, truckRecord])"
    using d by (simp add: handlePostRecord_def Let_def storageWith_def contextID_scoped recordsAt_def)
  with h(1) have st': "st' = storageWith [carRecord, truckRecord]" by simp
  have "entries = [carRecord, truckRecord]"
    using h(3) by (simp add: recordsAt_def storageWith_def contextID_scoped)
  with h st' show ?thesis by simp
qed

section \<open>The list id of the request context\<close>

lemma contextID_contextWithID: "contextID (contextWithID ctx ident) = ident"
  by (simp add: contextID_def contextWithID_def)

text \<open>
  Claim C10. On a context with no value under the key \<open>id\<close>, \<open>contextID\<close> returns 0,
  and each record handler does what it does on the same request with list id 0 put
  into its context: it reads and writes the sequence of list 0.
\<close>

theorem contextID_default_zero:
  assumes unset: "Context r ''id'' = None"
  shows "contextID (Context r) = 0
    \<and> handleGetRecord r st = handleGetRecord (r\<lparr>Context := contextWithID (Context r) 0\<rparr>) st
    \<and> handlePostRecord decodeRecord r st
        = handlePostRecord decodeRecord (r\<lparr>Context := contextWithID (Context r) 0\<rparr>) st
    \<and> handleDeleteRecord r st = handleDeleteRecord (r\<lparr>Context := contextWithID (Context r) 0\<rparr>) st
    \<and> recordHandler decodeRecord r st
        = recordHandler decodeRecord (r\<lparr>Context := contextWithID (Context r) 0\<rparr>) st
    \<and> handleGetRecord r st =
        (case Records st 0 of
           None \<Rightarrow> (httpError ''List not found'' 404, st)
         | Some records \<Rightarrow> (encodeJSON (RecordsJSON records), st))"
proof -
  from unset have z: "contextID (Context r) = 0" by (simp add: contextID_def)
  have g: "handleGetRecord r st = handleGetRecord (r\<lparr>Context := contextWithID (Context r) 0\<rparr>) st"
    by (simp add: handleGetRecord_def z contextID_contextWithID)
  have p: "handlePostRecord decodeRecord r st
        = handlePostRecord decodeRecord (r\<lparr>Context := contextWithID (Context r) 0\<rparr>) st"
    by (simp add: handlePostRecord_def z contextID_contextWithID)
  have d: "handleDeleteRecord r st = handleDeleteRecord (r\<lparr>Context := contextWithID (Context r) 0\<rparr>) st"
    by (simp add: handleDeleteRecord_def z contextID_contextWithID)
  have h: "recordHandler decodeRecord r st
        = recordHandler decodeRecord (r\<lparr>Context := contextWithID (Context r) 0\<rparr>) st"
    by (simp add: recordHandler_def g p d)
  have e: "handleGetRecord r st =
        (case Records st 0 of
           None \<Rightarrow> (httpError ''List not found'' 404, st)
         | Some records \<Rightarrow> (encodeJSON (RecordsJSON records), st))"
    by (simp add: handleGetRecord_def z)
  from z g p d h e show ?thesis by blast
qed

theorem contextID_default_zero_witness:
  "contextID (Context (newRequest ''GET'' [] [])) = 0
   \<and> handleGetRecord (newRequest ''GET'' [] []) (newStorage\<lparr>Records := [0 \<mapsto> [carRecord]]\<rparr>)
     = (encodeJSON (RecordsJSON [carRecord]), newStorage\<lparr>Records := [0 \<mapsto> [carRecord]]\<rparr>)
   \<and> handleGetRecord (newRequest ''GET'' [] []) (storageWith [carRecord])
     = (httpError ''List not found'' 404, storageWith [carRecord])"
proof -
  let ?r = "newRequest ''GET'' [] []"
  let ?sa = "newStorage\<lparr>Records := [0 \<mapsto> [carRecord]]\<rparr>"
  let ?sb = "storageWith [carRecord]"
  have u: "Context ?r ''id'' = None"
    by (simp add: newRequest_def)
  from contextID_default_zero [where r = "?r" and st = "?sa" and decodeRecord = decodeRecordText, OF u]
  have a: "contextID (Context ?r) = 0"
    and b: "handleGetRecord ?r ?sa =
        (case Records ?sa 0 of
           None \<Rightarrow> (httpError ''List not found'' 404, ?sa)
         | Some records \<Rightarrow> (encodeJSON (RecordsJSON records), ?sa))"
    by blast+
  from contextID_default_zero [where r = "?r" and st = "?sb" and decodeRecord = decodeRecordText, OF u]
  have c: "handleGetRecord ?r ?sb =
        (case Records ?sb 0 of
           None \<Rightarrow> (httpError ''List not found'' 404, ?sb)
         | Some records \<Rightarrow> (encodeJSON (RecordsJSON records), ?sb))"
    by blast
  have "Records ?sa 0 = Some [carRecord]" by simp
  moreover have "Records ?sb 0 = None" by (simp add: storageWith_def newStorage_def)
  ultimately show ?thesis using a b c by simp
qed

section \<open>Session tokens\<close>

text \<open>
  Claim C1. \<open>tokenMiddleware\<close> answers 401, with the storage as it was, when the
  request has no cookie \<open>s\<close>, when the cookie's value is not a key of \<open>Tokens\<close>, and when
  the current time is after the stored expiry. The equations hold for every handler
  \<open>next\<close>, so the answer does not come from it: it is not called. In the one case left,
  a stored token with \<open>now \<le> expiry\<close>, the result is that of \<open>next\<close> on the request with
  the owner id in its \<open>User-ID\<close> header.
\<close>

theorem tokenMiddleware_accepts_iff:
  "(requestCookie r ''s'' = None
      \<longrightarrow> tokenMiddleware next now r st = (httpError ''Unauthorized'' 401, st))
   \<and> (\<forall>v. requestCookie r ''s'' = Some v \<and> Tokens st v = None
      \<longrightarrow> tokenMiddleware next now r st = (httpError ''Unauthorized'' 401, st))
   \<and> (\<forall>v d. requestCookie r ''s'' = Some v \<and> Tokens st v = Some d \<and> Expiry d < now
      \<longrightarrow> tokenMiddleware next now r st = (httpError ''Unauthorized'' 401, st))
   \<and> (\<forall>v d. requestCookie r ''s'' = Some v \<and> Tokens st v = Some d \<and> now \<le> Expiry d
      \<longrightarrow> tokenMiddleware next now r st =
            next (r\<lparr>Header := (Header r)(''User-ID'' \<mapsto> FormatInt (OwnerID d))\<rparr>) st)"
  by (simp add: tokenMiddleware_def After_def)

lemma cookie_absent: "requestCookie (newRequest m q b) ''s'' = None"
  by (simp add: requestCookie_def newRequest_def)

lemma cookie_present: "requestCookie (addCookie (newRequest m q b) ''s'' v) ''s'' = Some v"
  by (simp add: requestCookie_def newRequest_def addCookie_def)

lemma vehicleListsHandler_empty:
  "Method r = ''GET'' \<Longrightarrow> vehicleListsHandler [] r st = (encodeJSON (ListsJSON [] 0 20 0), st)"
  by (simp add: vehicleListsHandler_def)

theorem tokenMiddleware_accepts_iff_witness:
  "tokenMiddleware (vehicleListsHandler []) 4000 (newRequest ''GET'' [] []) tokenStorage
     = (httpError ''Unauthorized'' 401, tokenStorage)
   \<and> tokenMiddleware (vehicleListsHandler []) 4000
       (addCookie (newRequest ''GET'' [] []) ''s'' ''1000-1002'') tokenStorage
     = (httpError ''Unauthorized'' 401, tokenStorage)
   \<and> tokenMiddleware (vehicleListsHandler []) 5001
       (addCookie (newRequest ''GET'' [] []) ''s'' ''1000-1001'') tokenStorage
     = (httpError ''Unauthorized'' 401, tokenStorage)
   \<and> tokenMiddleware (vehicleListsHandler []) 5000
       (addCookie (newRequest ''GET'' [] []) ''s'' ''1000-1001'') tokenStorage
     = (encodeJSON (ListsJSON [] 0 20 0), tokenStorage)"
proof -
  let ?h = "vehicleListsHandler []"
  let ?ra = "newRequest ''GET'' [] []"
  let ?rb = "addCookie ?ra ''s'' ''1000-1002''"
  let ?rc = "addCookie ?ra ''s'' ''1000-1001''"
  let ?d = "\<lparr>Expiry = 5000, OwnerID = 1000\<rparr>"
  have ca: "requestCookie ?ra ''s'' = None" by (rule cookie_absent)
  have cb: "requestCookie ?rb ''s'' = Some ''1000-1002'' \<and> Tokens tokenStorage ''1000-1002'' = None"
    by (simp add: cookie_present tokenStorage_def)
  have cc: "requestCookie ?rc ''s'' = Some ''1000-1001'' \<and> Tokens tokenStorage ''1000-1001'' = Some ?d
            \<and> Expiry ?d < 5001"
    by (simp add: cookie_present tokenStorage_def)
  have cd: "requestCookie ?rc ''s'' = Some ''1000-1001'' \<and> Tokens tokenStorage ''1000-1001'' = Some ?d
            \<and> 5000 \<le> Expiry ?d"
    by (simp add: cookie_present tokenStorage_def)
  from ca tokenMiddleware_accepts_iff [of ?ra ?h 4000 tokenStorage]
  have 1: "tokenMiddleware ?h 4000 ?ra tokenStorage = (httpError ''Unauthorized'' 401, tokenStorage)"
    by blast
  from cb tokenMiddleware_accepts_iff [of ?rb ?h 4000 tokenStorage]
  have 2: "tokenMiddleware ?h 4000 ?rb tokenStorage = (httpError ''Unauthorized'' 401, tokenStorage)"
    by blast
  from cc tokenMiddleware_accepts_iff [of ?rc ?h 5001 tokenStorage]
  have 3: "tokenMiddleware ?h 5001 ?rc tokenStorage = (httpError ''Unauthorized'' 401, tokenStorage)"
    by blast
  from cd tokenMiddleware_accepts_iff [of ?rc ?h 5000 tokenStorage]
  have "tokenMiddleware ?h 5000 ?rc tokenStorage =
          ?h (?rc\<lparr>Header := (Header ?rc)(''User-ID'' \<mapsto> FormatInt (OwnerID ?d))\<rparr>) tokenStorage"
    by blast
  also have "\<dots> = (encodeJSON (ListsJSON [] 0 20 0), tokenStorage)"
    by (rule vehicleListsHandler_empty) (simp add: addCookie_def newRequest_def)
  finally have 4: "tokenMiddleware ?h 5000 ?rc tokenStorage = (encodeJSON (ListsJSON [] 0 20 0), tokenStorage)" .
  from 1 2 3 4 show ?thesis by blast
qed


lemma vehicleListsHandler_storage: "snd (vehicleListsHandler ks r st) = st"
  by (simp add: vehicleListsHandler_def Let_def)

text \<open>
  Claim C8. \<open>tokenMiddleware\<close> never changes the storage: it answers 401 with the
  storage it was given, or it hands that same storage to \<open>next\<close>. So with a handler that
  leaves the storage alone the whole storage (\<open>Tokens\<close>, \<open>Lists\<close> and \<open>Records\<close>) is
  unchanged, and a token found expired is still in \<open>Tokens\<close> afterwards.
\<close>

theorem tokenMiddleware_storage_unchanged:
  "(tokenMiddleware next now r st = (httpError ''Unauthorized'' 401, st)
      \<or> (\<exists>r'. tokenMiddleware next now r st = next r' st))
   \<and> ((\<forall>r' s. snd (next r' s) = s) \<longrightarrow> snd (tokenMiddleware next now r st) = st)
   \<and> (\<forall>v d. requestCookie r ''s'' = Some v \<and> Tokens st v = Some d \<and> Expiry d < now
      \<longrightarrow> snd (tokenMiddleware next now r st) = st
          \<and> Tokens (snd (tokenMiddleware next now r st)) v = Some d)"
proof (intro conjI allI impI)
  show "tokenMiddleware next now r st = (httpError ''Unauthorized'' 401, st)
      \<or> (\<exists>r'. tokenMiddleware next now r st = next r' st)"
    by (auto simp: tokenMiddleware_def split: option.splits)
next
  assume "\<forall>r' s. snd (next r' s) = s"
  then show "snd (tokenMiddleware next now r st) = st"
    by (simp add: tokenMiddleware_def split: option.splits)
next
  fix v d
  assume h: "requestCookie r ''s'' = Some v \<and> Tokens st v = Some d \<and> Expiry d < now"
  then show "snd (tokenMiddleware next now r st) = st"
    by (simp add: tokenMiddleware_def After_def)
  with h show "Tokens (snd (tokenMiddleware next now r st)) v = Some d"
    by simp
qed

theorem tokenMiddleware_storage_unchanged_witness:
  "snd (tokenMiddleware (vehicleListsHandler []) 5001
         (addCookie (newRequest ''GET'' [] []) ''s'' ''1000-1001'') tokenStorage) = tokenStorage
   \<and> Tokens (snd (tokenMiddleware (vehicleListsHandler []) 5001
         (addCookie (newRequest ''GET'' [] []) ''s'' ''1000-1001'') tokenStorage)) ''1000-1001''
       = Some \<lparr>Expiry = 5000, OwnerID = 1000\<rparr>
   \<and> snd (tokenMiddleware (vehicleListsHandler []) 5000
         (addCookie (newRequest ''GET'' [] []) ''s'' ''1000-1001'') tokenStorage) = tokenStorage"
proof -
  let ?h = "vehicleListsHandler []"
  let ?rc = "addCookie (newRequest ''GET'' [] []) ''s'' ''1000-1001''"
  let ?d = "\<lparr>Expiry = 5000, OwnerID = 1000\<rparr>"
  have cc: "requestCookie ?rc ''s'' = Some ''1000-1001'' \<and> Tokens tokenStorage ''1000-1001'' = Some ?d
            \<and> Expiry ?d < 5001"
    by (simp add: cookie_present tokenStorage_def)
  have fr: "\<forall>r' s. snd (?h r' s) = s"
    by (simp add: vehicleListsHandler_storage)
  from cc tokenMiddleware_storage_unchanged [of ?h 5001 ?rc tokenStorage]
  have 1: "snd (tokenMiddleware ?h 5001 ?rc tokenStorage) = tokenStorage
           \<and> Tokens (snd (tokenMiddleware ?h 5001 ?rc tokenStorage)) ''1000-1001'' = Some ?d"
    by blast
  from fr tokenMiddleware_storage_unchanged [of ?h 5000 ?rc tokenStorage]
  have 2: "snd (tokenMiddleware ?h 5000 ?rc tokenStorage) = tokenStorage"
    by blast
  from 1 2 show ?thesis by blast
qed

section \<open>Listing vehicle lists\<close>

lemma rangeLists_map:
  "set ks \<subseteq> dom m \<Longrightarrow> map Some (rangeLists m ks vlists) = map Some vlists @ map m ks"
proof (induction ks arbitrary: vlists)
  case Nil
  then show ?case by simp
next
  case (Cons k ks)
  then obtain v where v: "m k = Some v" by auto
  from Cons.prems have "set ks \<subseteq> dom m" by simp
  from Cons.IH [OF this, of "vlists @ [v]"] v show ?case by simp
qed

text \<open>
  Claim C7. On a GET request, for every order \<open>ks\<close> in which the \<open>range\<close> loop visits
  the keys of \<open>Lists\<close>, the entries of the response are the values of the visited keys,
  one for each key: every entry of the mapping is among them, none is cut off by the
  offset 0 or the limit 20 of the metadata, and \<open>totalCount\<close> is the number of keys of
  the mapping.
\<close>

theorem vehicleListsHandler_all_entries:
  assumes order: "rangeOrder (Lists st) ks"
    and get: "Method r = ''GET''"
  shows "\<exists>entries.
           vehicleListsHandler ks r st =
             (encodeJSON (ListsJSON entries 0 20 (card (dom (Lists st)))), st) \<and>
           map Some entries = map (Lists st) ks \<and>
           length entries = card (dom (Lists st)) \<and>
           set entries = ran (Lists st) \<and>
           (\<forall>k v. Lists st k = Some v \<longrightarrow> v \<in> set entries)"
proof -
  let ?m = "Lists st"
  let ?entries = "rangeLists ?m ks []"
  from order have d: "distinct ks" and s: "set ks = dom ?m"
    by (simp_all add: rangeOrder_def)
  from s have e: "map Some ?entries = map ?m ks"
    using rangeLists_map [of ks ?m "[]"] by simp
  then have "length (map Some ?entries) = length (map ?m ks)" by simp
  then have "length ?entries = length ks" by simp
  also from d have "\<dots> = card (set ks)" by (simp add: distinct_card)
  finally have l: "length ?entries = card (dom ?m)" using s by simp
  have "Some ` set ?entries = ?m ` set ks"
    using e by (metis set_map)
  then have i: "Some ` set ?entries = ?m ` dom ?m" using s by simp
  have r: "set ?entries = ran ?m"
  proof (intro set_eqI iffI)
    fix v assume "v \<in> set ?entries"
    then have "Some v \<in> ?m ` dom ?m" using i by blast
    then show "v \<in> ran ?m" by (auto simp: ran_def)
  next
    fix v assume "v \<in> ran ?m"
    then obtain k where "?m k = Some v" by (auto simp: ran_def)
    then have "Some v \<in> ?m ` dom ?m" by (metis domI imageI)
    then show "v \<in> set ?entries" using i by blast
  qed
  then have a: "\<forall>k v. ?m k = Some v \<longrightarrow> v \<in> set ?entries"
    by (auto simp: ran_def)
  from get l have "vehicleListsHandler ks r st =
      (encodeJSON (ListsJSON ?entries 0 20 (card (dom ?m))), st)"
    by (simp add: vehicleListsHandler_def Let_def)
  with e l r a show ?thesis by blast
qed

theorem vehicleListsHandler_all_entries_witness:
  "vehicleListsHandler [2, 1] (newRequest ''GET'' [] [])
     (newStorage\<lparr>Lists := [1 \<mapsto> testList, 2 \<mapsto> otherList]\<rparr>)
   = (encodeJSON (ListsJSON [otherList, testList] 0 20 2),
      newStorage\<lparr>Lists := [1 \<mapsto> testList, 2 \<mapsto> otherList]\<rparr>)"
proof -
  let ?st = "newStorage\<lparr>Lists := [1 \<mapsto> testList, 2 \<mapsto> otherList]\<rparr>"
  let ?r = "newRequest ''GET'' [] []"
  have o: "rangeOrder (Lists ?st) [2, 1]"
    by (auto simp: rangeOrder_def)
  have g: "Method ?r = ''GET''" by (simp add: newRequest_def)
  from vehicleListsHandler_all_entries [OF o g] obtain entries where
    h: "vehicleListsHandler [2, 1] ?r ?st =
             (encodeJSON (ListsJSON entries 0 20 (card (dom (Lists ?st)))), ?st)"
       "map Some entries = map (Lists ?st) [2, 1]"
       "length entries = card (dom (Lists ?st))" by blast
  from h(2) have e: "entries = [otherList, testList]"
    by (cases entries; cases "tl entries") auto
  with h(3) have "card (dom (Lists ?st)) = 2" by simp
  with h(1) e show ?thesis by (simp add: numeral_2_eq_2)
qed

section \<open>Decimal formatting and session tokens\<close>

lemma digits_nth_inj: "a < 10 \<Longrightarrow> b < 10 \<Longrightarrow> digits ! a = digits ! b \<Longrightarrow> a = b"
proof -
  assume a: "a < 10" and b: "b < 10" and e: "digits ! a = digits ! b"
  have "distinct digits" by (simp add: digits_def)
  moreover have "length digits = 10" by (simp add: digits_def)
  ultimately show "a = b" using a b e by (simp add: nth_eq_iff_index_eq)
qed

lemma digits_nth_no_minus: "a < 10 \<Longrightarrow> digits ! a \<noteq> CHR ''-''"
proof -
  assume "a < 10"
  moreover have "length digits = 10" by (simp add: digits_def)
  ultimately have "digits ! a \<in> set digits" by (intro nth_mem) simp
  moreover have "CHR ''-'' \<notin> set digits" by (simp add: digits_def)
  ultimately show ?thesis by metis
qed

lemma showNat_nonempty: "showNat n \<noteq> []"
  by (subst showNat.simps) simp

lemma showNat_no_minus: "CHR ''-'' \<notin> set (showNat n)"
proof (induction n rule: showNat.induct)
  case (1 n)
  show ?case
  proof (cases "n < 10")
    case True
    then show ?thesis
      using digits_nth_no_minus [of n] by (subst showNat.simps) auto
  next
    case False
    with "1" have "CHR ''-'' \<notin> set (showNat (n div 10))" by simp
    moreover have "digits ! (n mod 10) \<noteq> CHR ''-''"
      by (rule digits_nth_no_minus) simp
    ultimately show ?thesis using False
      by (subst showNat.simps) auto
  qed
qed

lemma showNat_inj: "showNat a = showNat b \<Longrightarrow> a = b"
proof (induction a arbitrary: b rule: showNat.induct)
  case (1 a)
  show ?case
  proof (cases "a < 10")
    case a: True
    show ?thesis
    proof (cases "b < 10")
      case True
      with a "1.prems" have "digits ! a = digits ! b"
        by (simp add: showNat.simps [of a] showNat.simps [of b])
      with a True show ?thesis by (rule digits_nth_inj)
    next
      case False
      with a "1.prems" have "showNat (b div 10) = []"
        by (simp add: showNat.simps [of a] showNat.simps [of b])
      then show ?thesis by (simp add: showNat_nonempty)
    qed
  next
    case a: False
    show ?thesis
    proof (cases "b < 10")
      case True
      with a "1.prems" have "showNat (a div 10) = []"
        by (simp add: showNat.simps [of a] showNat.simps [of b])
      then show ?thesis by (simp add: showNat_nonempty)
    next
      case False
      with a "1.prems" have e: "showNat (a div 10) = showNat (b div 10)"
        and d: "digits ! (a mod 10) = digits ! (b mod 10)"
        by (simp_all add: showNat.simps [of a] showNat.simps [of b])
      from "1.IH" [OF a e] have "a div 10 = b div 10" .
      moreover from d have "a mod 10 = b mod 10"
        by (intro digits_nth_inj) simp_all
      ultimately show ?thesis by (metis div_mult_mod_eq)
    qed
  qed
qed


lemma showInt_inj: "showInt a = showInt b \<Longrightarrow> a = b"
proof -
  assume e: "showInt a = showInt b"
  consider "a < 0" "b < 0" | "a < 0" "0 \<le> b" | "0 \<le> a" "b < 0" | "0 \<le> a" "0 \<le> b"
    by linarith
  then show "a = b"
  proof cases
    case 1
    with e have "showNat (nat (- a)) = showNat (nat (- b))" by (simp add: showInt_def)
    then have "nat (- a) = nat (- b)" by (rule showNat_inj)
    with 1 show ?thesis by simp
  next
    case 2
    with e have "CHR ''-'' # showNat (nat (- a)) = showNat (nat b)"
      by (simp add: showInt_def)
    then have "CHR ''-'' \<in> set (showNat (nat b))"
      by (metis list.set_intros(1))
    then show ?thesis by (simp add: showNat_no_minus)
  next
    case 3
    with e have "showNat (nat a) = CHR ''-'' # showNat (nat (- b))"
      by (simp add: showInt_def)
    then have "CHR ''-'' \<in> set (showNat (nat a))"
      by (metis list.set_intros(1))
    then show ?thesis by (simp add: showNat_no_minus)
  next
    case 4
    with e have "showNat (nat a) = showNat (nat b)" by (simp add: showInt_def)
    then have "nat a = nat b" by (rule showNat_inj)
    with 4 show ?thesis by simp
  qed
qed

lemma FormatInt_inj: "FormatInt i = FormatInt j \<Longrightarrow> i = j"
proof -
  assume "FormatInt i = FormatInt j"
  then have "sint i = sint j" by (simp add: FormatInt_def showInt_inj)
  then show "i = j" by (rule signed_word_eqI)
qed

lemma split_at_separator:
  "c \<notin> set u \<Longrightarrow> c \<notin> set v \<Longrightarrow> u @ c # x = v @ c # y \<Longrightarrow> u = v"
proof (induction u arbitrary: v)
  case Nil
  then show ?case by (cases v) auto
next
  case (Cons a u)
  then show ?case by (cases v) auto
qed

lemma showInt_prefix:
  "showInt a @ CHR ''-'' # x = showInt b @ CHR ''-'' # y \<Longrightarrow> a = b"
proof -
  assume e: "showInt a @ CHR ''-'' # x = showInt b @ CHR ''-'' # y"
  consider "a < 0" "b < 0" | "a < 0" "0 \<le> b" | "0 \<le> a" "b < 0" | "0 \<le> a" "0 \<le> b"
    by linarith
  then show "a = b"
  proof cases
    case 1
    with e have "showNat (nat (- a)) @ CHR ''-'' # x = showNat (nat (- b)) @ CHR ''-'' # y"
      by (simp add: showInt_def)
    then have "showNat (nat (- a)) = showNat (nat (- b))"
      by (rule split_at_separator [OF showNat_no_minus showNat_no_minus])
    then have "nat (- a) = nat (- b)" by (rule showNat_inj)
    with 1 show ?thesis by simp
  next
    case 2
    with e have "CHR ''-'' # showNat (nat (- a)) @ CHR ''-'' # x = showNat (nat b) @ CHR ''-'' # y"
      by (simp add: showInt_def)
    then have "CHR ''-'' \<in> set (showNat (nat b))"
      using showNat_nonempty [of "nat b"] by (cases "showNat (nat b)") auto
    then show ?thesis by (simp add: showNat_no_minus)
  next
    case 3
    with e have "showNat (nat a) @ CHR ''-'' # x = CHR ''-'' # showNat (nat (- b)) @ CHR ''-'' # y"
      by (simp add: showInt_def)
    then have "CHR ''-'' \<in> set (showNat (nat a))"
      using showNat_nonempty [of "nat a"] by (cases "showNat (nat a)") auto
    then show ?thesis by (simp add: showNat_no_minus)
  next
    case 4
    with e have "showNat (nat a) @ CHR ''-'' # x = showNat (nat b) @ CHR ''-'' # y"
      by (simp add: showInt_def)
    then have "showNat (nat a) = showNat (nat b)"
      by (rule split_at_separator [OF showNat_no_minus showNat_no_minus])
    then have "nat a = nat b" by (rule showNat_inj)
    with 4 show ?thesis by simp
  qed
qed

lemma generateToken_owner:
  "generateToken i t = generateToken j u \<Longrightarrow> i = j"
proof -
  assume "generateToken i t = generateToken j u"
  then have "sint i = sint j"
    by (simp add: generateToken_def FormatInt_def) (rule showInt_prefix)
  then show "i = j" by (rule signed_word_eqI)
qed

section \<open>Logging in\<close>

lemma token_1000_1000: "generateToken (UnixNano 1000) 1000 = ''1000-1000''"
  by (simp add: generateToken_def FormatInt_def UnixNano_def showInt_def showNat.simps digits_def)

lemma token_1000_1001: "generateToken (UnixNano 1000) 1001 = ''1000-1001''"
  by (simp add: generateToken_def FormatInt_def UnixNano_def showInt_def showNat.simps digits_def)

lemma FormatInt_1000: "FormatInt (UnixNano 1000) = ''1000''"
  by (simp add: FormatInt_def UnixNano_def showInt_def showNat.simps digits_def)

lemma loginRequest_ok:
  "Method loginRequest = ''POST''"
  "decodeCredsText (Body loginRequest)
     = Some \<lparr>Username = ''test'', Password = ''password'', IsRememberMe = False\<rparr>"
  by (simp_all add: loginRequest_def newRequest_def decodeCredsText_def)

lemma firstLogin_eq:
  "firstLogin =
     (\<lparr>StatusCode = 200, SetCookie = Some (''s'', ''1000-1000'', 300000001000),
       RespBody = LoginJSON ''/'' True\<rparr>,
      newStorage\<lparr>Tokens := [''1000-1000'' \<mapsto> \<lparr>Expiry = 300000001000, OwnerID = UnixNano 1000\<rparr>]\<rparr>)"
  by (simp add: firstLogin_def loginHandler_def loginRequest_ok Let_def token_1000_1000
      timeAdd_def newStorage_def)

lemma secondLogin_eq:
  "secondLogin =
     (\<lparr>StatusCode = 200, SetCookie = Some (''s'', ''1000-1001'', 300000001001),
       RespBody = LoginJSON ''/'' True\<rparr>,
      newStorage\<lparr>Tokens := [''1000-1000'' \<mapsto> \<lparr>Expiry = 300000001000, OwnerID = UnixNano 1000\<rparr>,
                              ''1000-1001'' \<mapsto> \<lparr>Expiry = 300000001001, OwnerID = UnixNano 1000\<rparr>]\<rparr>)"
  by (simp add: secondLogin_def firstLogin_eq loginHandler_def loginRequest_ok Let_def
      token_1000_1001 timeAdd_def newStorage_def)

lemma userID_resolution:
  "Tokens st v = Some \<lparr>Expiry = e, OwnerID = UnixNano 1000\<rparr> \<Longrightarrow> now \<le> e \<Longrightarrow>
   tokenMiddleware userIDHandler now (addCookie (newRequest ''GET'' [] []) ''s'' v) st
     = (\<lparr>StatusCode = 200, SetCookie = None, RespBody = PlainText ''1000''\<rparr>, st)"
  by (simp add: tokenMiddleware_def cookie_present After_def userIDHandler_def FormatInt_1000)

text \<open>
  Claim C4 fails as stated. The owner id of a login is the clock reading
  \<open>time.Now().UnixNano()\<close>, so two logins that read the same value get the same owner
  id. Here both logins succeed and set different cookies, and both cookies resolve
  through \<open>tokenMiddleware\<close> to the owner id 1000.
\<close>

theorem logins_same_clock_same_owner:
  "StatusCode (fst firstLogin) = 200 \<and> StatusCode (fst secondLogin) = 200
   \<and> SetCookie (fst firstLogin) = Some (''s'', ''1000-1000'', 300000001000)
   \<and> SetCookie (fst secondLogin) = Some (''s'', ''1000-1001'', 300000001001)
   \<and> tokenMiddleware userIDHandler 2000 (addCookie (newRequest ''GET'' [] []) ''s'' ''1000-1000'')
        (snd secondLogin)
      = (\<lparr>StatusCode = 200, SetCookie = None, RespBody = PlainText ''1000''\<rparr>, snd secondLogin)
   \<and> tokenMiddleware userIDHandler 2000 (addCookie (newRequest ''GET'' [] []) ''s'' ''1000-1001'')
        (snd secondLogin)
      = (\<lparr>StatusCode = 200, SetCookie = None, RespBody = PlainText ''1000''\<rparr>, snd secondLogin)"
proof -
  have a: "Tokens (snd secondLogin) ''1000-1000'' = Some \<lparr>Expiry = 300000001000, OwnerID = UnixNano 1000\<rparr>"
    by (simp add: secondLogin_eq)
  have b: "Tokens (snd secondLogin) ''1000-1001'' = Some \<lparr>Expiry = 300000001001, OwnerID = UnixNano 1000\<rparr>"
    by (simp add: secondLogin_eq)
  from userID_resolution [OF a, of 2000] userID_resolution [OF b, of 2000]
  show ?thesis by (simp add: firstLogin_eq secondLogin_eq)
qed


lemma loginHandler_success:
  assumes "StatusCode (fst (loginHandler decodeCreds tokenExpiry now1 now2 now3 r st)) = 200"
  shows "loginHandler decodeCreds tokenExpiry now1 now2 now3 r st =
     (\<lparr>StatusCode = 200,
        SetCookie = Some (''s'', generateToken (UnixNano now1) now2, timeAdd now3 tokenExpiry),
        RespBody = LoginJSON ''/'' True\<rparr>,
      st\<lparr>Tokens := (Tokens st)(generateToken (UnixNano now1) now2 \<mapsto>
            \<lparr>Expiry = timeAdd now3 tokenExpiry, OwnerID = UnixNano now1\<rparr>)\<rparr>)"
proof (cases "Method r = ''POST''")
  case False
  with assms show ?thesis by (simp add: loginHandler_def httpError_def)
next
  case True
  show ?thesis
  proof (cases "decodeCreds (Body r)")
    case None
    with True assms show ?thesis by (simp add: loginHandler_def httpError_def)
  next
    case (Some creds)
    with True show ?thesis by (simp add: loginHandler_def Let_def)
  qed
qed

text \<open>
  Claim C4, amended. Two successful logins, one after the other, whose clock readings
  for the owner id differ as \<open>int64\<close> values set different session tokens; after both,
  each token is stored with its own owner id, the two owner ids differ, and up to its
  expiry each token resolves through \<open>tokenMiddleware\<close> to its own owner id in the
  \<open>User-ID\<close> header.
\<close>

theorem logins_distinct_owner_ids:
  assumes ok1: "StatusCode (fst (loginHandler decodeCreds tokenExpiry a1 a2 a3 r1 st)) = 200"
    and ok2: "StatusCode (fst (loginHandler decodeCreds tokenExpiry b1 b2 b3 r2
                (snd (loginHandler decodeCreds tokenExpiry a1 a2 a3 r1 st)))) = 200"
    and differ: "UnixNano a1 \<noteq> UnixNano b1"
  shows "\<exists>tok1 tok2 e1 e2 st2.
      SetCookie (fst (loginHandler decodeCreds tokenExpiry a1 a2 a3 r1 st)) = Some (''s'', tok1, e1) \<and>
      loginHandler decodeCreds tokenExpiry b1 b2 b3 r2
        (snd (loginHandler decodeCreds tokenExpiry a1 a2 a3 r1 st))
        = (\<lparr>StatusCode = 200, SetCookie = Some (''s'', tok2, e2), RespBody = LoginJSON ''/'' True\<rparr>, st2) \<and>
      tok1 \<noteq> tok2 \<and>
      Tokens st2 tok1 = Some \<lparr>Expiry = e1, OwnerID = UnixNano a1\<rparr> \<and>
      Tokens st2 tok2 = Some \<lparr>Expiry = e2, OwnerID = UnixNano b1\<rparr> \<and>
      FormatInt (UnixNano a1) \<noteq> FormatInt (UnixNano b1) \<and>
      (\<forall>next now r. requestCookie r ''s'' = Some tok1 \<and> now \<le> e1 \<longrightarrow>
         tokenMiddleware next now r st2 =
           next (r\<lparr>Header := (Header r)(''User-ID'' \<mapsto> FormatInt (UnixNano a1))\<rparr>) st2) \<and>
      (\<forall>next now r. requestCookie r ''s'' = Some tok2 \<and> now \<le> e2 \<longrightarrow>
         tokenMiddleware next now r st2 =
           next (r\<lparr>Header := (Header r)(''User-ID'' \<mapsto> FormatInt (UnixNano b1))\<rparr>) st2)"
proof -
  let ?tok1 = "generateToken (UnixNano a1) a2"
  let ?tok2 = "generateToken (UnixNano b1) b2"
  let ?e1 = "timeAdd a3 tokenExpiry"
  let ?e2 = "timeAdd b3 tokenExpiry"
  let ?d1 = "\<lparr>Expiry = ?e1, OwnerID = UnixNano a1\<rparr>"
  let ?d2 = "\<lparr>Expiry = ?e2, OwnerID = UnixNano b1\<rparr>"
  let ?st1 = "st\<lparr>Tokens := (Tokens st)(?tok1 \<mapsto> ?d1)\<rparr>"
  let ?st2 = "?st1\<lparr>Tokens := (Tokens ?st1)(?tok2 \<mapsto> ?d2)\<rparr>"
  note l1 = loginHandler_success [OF ok1]
  from ok2 have ok2': "StatusCode (fst (loginHandler decodeCreds tokenExpiry b1 b2 b3 r2 ?st1)) = 200"
    by (simp add: l1)
  note l2 = loginHandler_success [OF ok2']
  from differ have toks: "?tok1 \<noteq> ?tok2"
    using generateToken_owner [of "UnixNano a1" a2 "UnixNano b1" b2] by blast
  from differ have ids: "FormatInt (UnixNano a1) \<noteq> FormatInt (UnixNano b1)"
    using FormatInt_inj by blast
  have c1: "SetCookie (fst (loginHandler decodeCreds tokenExpiry a1 a2 a3 r1 st)) = Some (''s'', ?tok1, ?e1)"
    by (simp add: l1)
  have c2: "loginHandler decodeCreds tokenExpiry b1 b2 b3 r2
        (snd (loginHandler decodeCreds tokenExpiry a1 a2 a3 r1 st))
        = (\<lparr>StatusCode = 200, SetCookie = Some (''s'', ?tok2, ?e2), RespBody = LoginJSON ''/'' True\<rparr>, ?st2)"
    using l2 by (simp add: l1)
  from toks have t1: "Tokens ?st2 ?tok1 = Some ?d1" by simp
  have t2: "Tokens ?st2 ?tok2 = Some ?d2" by simp
  have m1: "\<forall>next now r. requestCookie r ''s'' = Some ?tok1 \<and> now \<le> ?e1 \<longrightarrow>
         tokenMiddleware next now r ?st2 =
           next (r\<lparr>Header := (Header r)(''User-ID'' \<mapsto> FormatInt (UnixNano a1))\<rparr>) ?st2"
    using t1 by (simp add: tokenMiddleware_def After_def)
  have m2: "\<forall>next now r. requestCookie r ''s'' = Some ?tok2 \<and> now \<le> ?e2 \<longrightarrow>
         tokenMiddleware next now r ?st2 =
           next (r\<lparr>Header := (Header r)(''User-ID'' \<mapsto> FormatInt (UnixNano b1))\<rparr>) ?st2"
    using t2 by (simp add: tokenMiddleware_def After_def)
  from c1 c2 toks t1 t2 ids m1 m2 show ?thesis by blast
qed


theorem logins_distinct_owner_ids_witness:
  "UnixNano 1000 \<noteq> UnixNano 2000 \<and>
   (\<exists>tok1 tok2 e1 e2 st2.
      SetCookie (fst firstLogin) = Some (''s'', tok1, e1) \<and>
      laterLogin
        = (\<lparr>StatusCode = 200, SetCookie = Some (''s'', tok2, e2), RespBody = LoginJSON ''/'' True\<rparr>, st2) \<and>
      tok1 \<noteq> tok2 \<and>
      Tokens st2 tok1 = Some \<lparr>Expiry = e1, OwnerID = UnixNano 1000\<rparr> \<and>
      Tokens st2 tok2 = Some \<lparr>Expiry = e2, OwnerID = UnixNano 2000\<rparr> \<and>
      FormatInt (UnixNano 1000) \<noteq> FormatInt (UnixNano 2000))"
proof -
  have ok1: "StatusCode (fst (loginHandler decodeCredsText 300000000000 1000 1000 1000
                loginRequest newStorage)) = 200"
    by (simp add: loginHandler_def loginRequest_ok Let_def)
  have ok2: "StatusCode (fst (loginHandler decodeCredsText 300000000000 2000 2000 2000 loginRequest
                (snd (loginHandler decodeCredsText 300000000000 1000 1000 1000
                   loginRequest newStorage)))) = 200"
    by (simp add: loginHandler_def loginRequest_ok Let_def)
  have differ: "UnixNano 1000 \<noteq> UnixNano 2000"
    by (simp add: UnixNano_def)
  from logins_distinct_owner_ids [OF ok1 ok2 differ] differ
  show ?thesis unfolding firstLogin_def laterLogin_def by blast
qed

end
